theory Spec2Isabelle
  imports Main "HOL-Library.Char_ord"
begin

section \<open>JavaScript values used by the options page\<close>

text \<open>
  The options page (\<^verbatim>\<open>src/options.js\<close>) keeps two arrays, validates user input with two
  regular expressions from \<^verbatim>\<open>config.js\<close>, and talks to the browser through
  \<^verbatim>\<open>browser.js\<close>, \<^verbatim>\<open>gerrit.js\<close> and \<^verbatim>\<open>dombuilder.js\<close>.

  Strings are modelled as \<^typ>\<open>string\<close>: one \<^typ>\<open>char\<close> stands for one code unit, and
  only code units below 256 exist in the model. Every pattern of \<^verbatim>\<open>config.js\<close> is
  ASCII.

  A value that is thrown, or with which a promise is rejected, is either an \<^verbatim>\<open>Error\<close>
  object (its \<^verbatim>\<open>name\<close> and \<^verbatim>\<open>message\<close>) or a plain string.
\<close>

datatype jsval = JSError string string | JSString string

text \<open>\<^verbatim>\<open>String(error)\<close>: \<^verbatim>\<open>Error.prototype.toString\<close> for error objects.\<close>

fun String :: "jsval \<Rightarrow> string" where
  "String (JSString s) = s"
| "String (JSError nm msg) =
     (if nm = [] then msg else if msg = [] then nm else nm @ '': '' @ msg)"

text \<open>
  A computation either completes normally or throws; a settled promise is either
  fulfilled or rejected. Both are a \<open>completion\<close>.
\<close>

datatype 'a completion = Normal 'a | Throw jsval

text \<open>String concatenation \<^verbatim>\<open>x + s\<close> where \<^verbatim>\<open>x\<close> may be \<^verbatim>\<open>undefined\<close>.\<close>

fun js_add :: "string option \<Rightarrow> string \<Rightarrow> string" where
  "js_add (Some x) s = x @ s"
| "js_add None s = ''undefined'' @ s"

text \<open>\<^verbatim>\<open>Array.prototype.join\<close> on an array of strings.\<close>

fun join :: "string list \<Rightarrow> string \<Rightarrow> string" where
  "join [] sep = []"
| "join [x] sep = x"
| "join (x # y # ys) sep = x @ sep @ join (y # ys) sep"

section \<open>Regular expressions\<close>

text \<open>
  The fragment of ECMAScript regular expressions that \<^verbatim>\<open>config.js\<close> uses: pattern
  characters, \<^verbatim>\<open>.\<close>, character classes with ranges and negation, the assertions \<^verbatim>\<open>^\<close> and
  \<^verbatim>\<open>$\<close>, capturing groups, the greedy quantifiers \<^verbatim>\<open>*\<close>, \<^verbatim>\<open>+\<close>, \<^verbatim>\<open>?\<close>, and identity
  escapes of syntax characters. \<^verbatim>\<open>r+\<close> is represented as \<open>Cat r (Star r)\<close>.
\<close>

datatype re =
    Eps
  | Chr char
  | Dot
  | Cls bool "(char \<times> char) list"
  | Bol
  | Eol
  | Grp nat re
  | Cat re re
  | Star re
  | Opt re

subsection \<open>Parsing a pattern\<close>

fun seq_of :: "re list \<Rightarrow> re" where
  "seq_of [] = Eps"
| "seq_of (r # rs) = Cat r (seq_of rs)"

text \<open>
  The members of a character class: \<^verbatim>\<open>x-y\<close> is a range, any other character stands
  for itself (so a trailing \<^verbatim>\<open>-\<close> is a literal hyphen). A range out of order is a
  syntax error.
\<close>

fun class_ranges :: "string \<Rightarrow> (char \<times> char) list option" where
  "class_ranges (x # d # y # r) =
     (if d = CHR ''-''
      then (if x \<le> y then map_option ((#) (x, y)) (class_ranges r) else None)
      else map_option ((#) (x, x)) (class_ranges (d # y # r)))"
| "class_ranges (x # r) = map_option ((#) (x, x)) (class_ranges r)"
| "class_ranges [] = Some []"

definition syntax_character :: "char \<Rightarrow> bool" where
  "syntax_character c \<longleftrightarrow> c \<in> set (''^$.*+?()[]{}|/'' @ [CHR 0x5C])"

fun quantify :: "char \<Rightarrow> re \<Rightarrow> re" where
  "quantify q t =
     (if q = CHR ''*'' then Star t else if q = CHR ''+'' then Cat t (Star t) else Opt t)"

datatype pmode = Term | ClassStart | Class bool string | Esc

text \<open>
  One pass over the pattern text. \<open>n\<close> counts the left parentheses seen so far (the
  number of the innermost group opened last), \<open>q\<close> says whether the last term may take a
  quantifier, \<open>cur\<close> holds the terms of the innermost open sequence (newest first) and
  \<open>stk\<close> the enclosing sequences with the number of the group they are waiting for.
  The result \<open>None\<close> stands for a \<^verbatim>\<open>SyntaxError\<close> or for syntax outside the fragment.
\<close>

fun parse :: "pmode \<Rightarrow> string \<Rightarrow> nat \<Rightarrow> bool \<Rightarrow> re list \<Rightarrow> (nat \<times> re list) list
                \<Rightarrow> (re \<times> nat) option" where
  "parse m [] n q cur stk =
     (if m = Term \<and> stk = [] then Some (seq_of (rev cur), n) else None)"
| "parse Term (c # cs) n q cur stk =
     (if c = CHR ''('' then parse Term cs (Suc n) False [] ((Suc n, cur) # stk)
      else if c = CHR '')'' then
        (case stk of
           [] \<Rightarrow> None
         | (g, outer) # stk' \<Rightarrow> parse Term cs n True (Grp g (seq_of (rev cur)) # outer) stk')
      else if c = CHR ''*'' \<or> c = CHR ''+'' \<or> c = CHR ''?'' then
        (case cur of
           [] \<Rightarrow> None
         | t # ts \<Rightarrow> if q then parse Term cs n False (quantify c t # ts) stk else None)
      else if c = CHR ''['' then parse ClassStart cs n q cur stk
      else if c = CHR 0x5C then parse Esc cs n q cur stk
      else if c = CHR ''^'' then parse Term cs n False (Bol # cur) stk
      else if c = CHR ''$'' then parse Term cs n False (Eol # cur) stk
      else if c = CHR ''.'' then parse Term cs n True (Dot # cur) stk
      else if c = CHR '']'' \<or> c = CHR ''{'' \<or> c = CHR ''}'' \<or> c = CHR ''|'' then None
      else parse Term cs n True (Chr c # cur) stk)"
| "parse ClassStart (c # cs) n q cur stk =
     (if c = CHR ''^'' then parse (Class True []) cs n q cur stk
      else if c = CHR '']'' then parse Term cs n True (Cls False [] # cur) stk
      else if c = CHR 0x5C then None
      else parse (Class False [c]) cs n q cur stk)"
| "parse (Class neg acc) (c # cs) n q cur stk =
     (if c = CHR '']'' then
        (case class_ranges (rev acc) of
           None \<Rightarrow> None
         | Some rs \<Rightarrow> parse Term cs n True (Cls neg rs # cur) stk)
      else if c = CHR 0x5C then None
      else parse (Class neg (c # acc)) cs n q cur stk)"
| "parse Esc (c # cs) n q cur stk =
     (if syntax_character c then parse Term cs n True (Chr c # cur) stk else None)"

record regexp =
  source :: re
  ignoreCase :: bool
  nGroups :: nat

text \<open>\<^verbatim>\<open>new RegExp(pattern, flags)\<close>, for the flags \<^verbatim>\<open>''\<close> and \<^verbatim>\<open>'i'\<close>.\<close>

definition RegExp :: "string \<Rightarrow> string \<Rightarrow> regexp option" where
  "RegExp pattern flags =
     (if flags = [] \<or> flags = ''i'' then
        (case parse Term pattern 0 False [] [] of
           None \<Rightarrow> None
         | Some (r, n) \<Rightarrow> Some \<lparr>source = r, ignoreCase = (flags = ''i''), nGroups = n\<rparr>)
      else None)"

subsection \<open>Matching\<close>

definition toUpperCase :: "char \<Rightarrow> char" where
  "toUpperCase c =
     (if CHR ''a'' \<le> c \<and> c \<le> CHR ''z'' then char_of (of_char c - (32::nat)) else c)"

definition toLowerCase :: "char \<Rightarrow> char" where
  "toLowerCase c =
     (if CHR ''A'' \<le> c \<and> c \<le> CHR ''Z'' then char_of (of_char c + (32::nat)) else c)"

text \<open>
  \<^verbatim>\<open>Canonicalize\<close> of the specification, without the \<^verbatim>\<open>u\<close> flag: with \<^verbatim>\<open>i\<close> a character is
  compared through its upper-case form. A code unit from 128 on is never mapped to an
  ASCII one, and every pattern here is ASCII, so the mapping is modelled on ASCII letters
  only.
\<close>

definition canonicalize :: "bool \<Rightarrow> char \<Rightarrow> char" where
  "canonicalize ic c = (if ic then toUpperCase c else c)"

definition in_ranges :: "(char \<times> char) list \<Rightarrow> char \<Rightarrow> bool" where
  "in_ranges rs c = list_ex (\<lambda>(lo, hi). lo \<le> c \<and> c \<le> hi) rs"

text \<open>
  A character belongs to a class when some member of the class has the same canonical
  form: the character itself, or with \<^verbatim>\<open>i\<close> its upper-case or lower-case form.
\<close>

definition class_matches :: "bool \<Rightarrow> (char \<times> char) list \<Rightarrow> char \<Rightarrow> bool" where
  "class_matches ic rs c \<longleftrightarrow>
     in_ranges rs c \<or> (ic \<and> (in_ranges rs (toUpperCase c) \<or> in_ranges rs (toLowerCase c)))"

definition line_terminator :: "char \<Rightarrow> bool" where
  "line_terminator c \<longleftrightarrow> c = CHR 0x0A \<or> c = CHR 0x0D"

fun groups_in :: "re \<Rightarrow> nat list" where
  "groups_in (Grp n r) = n # groups_in r"
| "groups_in (Cat r1 r2) = groups_in r1 @ groups_in r2"
| "groups_in (Star r) = groups_in r"
| "groups_in (Opt r) = groups_in r"
| "groups_in _ = []"

type_synonym caps = "(nat \<times> string) list"

definition clear_caps :: "nat list \<Rightarrow> caps \<Rightarrow> caps" where
  "clear_caps ns cs = filter (\<lambda>(n, _). n \<notin> set ns) cs"

text \<open>
  The backtracking matcher. A state is the part of the input not yet consumed together
  with the captures made so far; \<open>mt ic inp r st\<close> lists, in the order in which
  backtracking tries them, the states in which a match of \<open>r\<close> started in \<open>st\<close> can end.
  Quantifiers are greedy: one more iteration is tried before stopping. As in
  \<^verbatim>\<open>RepeatMatcher\<close>, the captures of the groups inside a quantified term are reset when an
  iteration starts, and an iteration of \<^verbatim>\<open>*\<close> or \<^verbatim>\<open>?\<close> that consumes nothing is
  rejected.
\<close>

function (sequential) mt :: "bool \<Rightarrow> string \<Rightarrow> re \<Rightarrow> string \<times> caps \<Rightarrow> (string \<times> caps) list" where
  "mt ic inp Eps st = [st]"
| "mt ic inp (Chr c) (rest, cs) =
     (case rest of
        [] \<Rightarrow> []
      | x # rest' \<Rightarrow> if canonicalize ic x = canonicalize ic c then [(rest', cs)] else [])"
| "mt ic inp Dot (rest, cs) =
     (case rest of
        [] \<Rightarrow> []
      | x # rest' \<Rightarrow> if line_terminator x then [] else [(rest', cs)])"
| "mt ic inp (Cls neg rs) (rest, cs) =
     (case rest of
        [] \<Rightarrow> []
      | x # rest' \<Rightarrow> if class_matches ic rs x \<noteq> neg then [(rest', cs)] else [])"
| "mt ic inp Bol (rest, cs) = (if length rest = length inp then [(rest, cs)] else [])"
| "mt ic inp Eol (rest, cs) = (if rest = [] then [(rest, cs)] else [])"
| "mt ic inp (Grp n r) (rest, cs) =
     map (\<lambda>(rest', cs'). (rest', (n, take (length rest - length rest') rest) # clear_caps [n] cs'))
         (mt ic inp r (rest, cs))"
| "mt ic inp (Cat r1 r2) st = concat (map (mt ic inp r2) (mt ic inp r1 st))"
| "mt ic inp (Star r) (rest, cs) =
     concat (map (\<lambda>(rest', cs'). if length rest' < length rest
                                   then mt ic inp (Star r) (rest', cs') else [])
                 (mt ic inp r (rest, clear_caps (groups_in r) cs)))
     @ [(rest, cs)]"
| "mt ic inp (Opt r) (rest, cs) =
     filter (\<lambda>(rest', cs'). length rest' < length rest)
            (mt ic inp r (rest, clear_caps (groups_in r) cs))
     @ [(rest, cs)]"
  by pat_completeness auto
termination
  by (relation "measures [\<lambda>(ic, inp, r, st). size r, \<lambda>(ic, inp, r, st). length (fst st)]") auto

text \<open>
  The array returned by \<^verbatim>\<open>exec\<close>: \<open>captures m ! 0\<close> is the matched text, \<open>captures m ! k\<close> the
  capture of group \<open>k\<close>, \<open>None\<close> for \<^verbatim>\<open>undefined\<close>.
\<close>

record match =
  index :: nat
  captures :: "string option list"

text \<open>
  \<^verbatim>\<open>RegExp.prototype.exec\<close> without the \<^verbatim>\<open>g\<close> and \<^verbatim>\<open>y\<close> flags: the match is tried at
  every start position from the left; \<open>None\<close> stands for \<^verbatim>\<open>null\<close>.
\<close>

fun exec_at :: "regexp \<Rightarrow> string \<Rightarrow> string \<Rightarrow> match option" where
  "exec_at R inp rest =
     (case mt (ignoreCase R) inp (source R) (rest, []) of
        (rest', cs) # _ \<Rightarrow>
          Some \<lparr>index = length inp - length rest,
                captures = Some (take (length rest - length rest') rest)
                         # map (map_of cs) [1..<Suc (nGroups R)]\<rparr>
      | [] \<Rightarrow> (case rest of [] \<Rightarrow> None | _ # rest'' \<Rightarrow> exec_at R inp rest''))"

definition exec :: "regexp \<Rightarrow> string \<Rightarrow> match option" where
  "exec R inp = exec_at R inp inp"

text \<open>\<^verbatim>\<open>match[k]\<close>; an index past the end of the array reads \<^verbatim>\<open>undefined\<close>.\<close>

definition match_at :: "match \<Rightarrow> nat \<Rightarrow> string option" where
  "match_at m k = (if k < length (captures m) then captures m ! k else None)"

section \<open>config.js\<close>

text \<open>
  The value of a template literal: a backslash followed by a character that starts no
  escape sequence denotes that character. Hexadecimal and Unicode escapes and line
  continuations are not modelled; \<^verbatim>\<open>config.js\<close> uses none.
\<close>

definition escape_character :: "char \<Rightarrow> char" where
  "escape_character d =
     (if d = CHR ''n'' then CHR 0x0A else if d = CHR ''t'' then CHR 0x09
      else if d = CHR ''r'' then CHR 0x0D else if d = CHR ''b'' then CHR 0x08
      else if d = CHR ''f'' then CHR 0x0C else if d = CHR ''v'' then CHR 0x0B
      else if d = CHR ''0'' then CHR 0x00 else d)"

fun template_cooked :: "string \<Rightarrow> string" where
  "template_cooked (c # d # r) =
     (if c = CHR 0x5C then escape_character d # template_cooked r
      else c # template_cooked (d # r))"
| "template_cooked r = r"

definition ORIGIN_PATTERN :: string where
  "ORIGIN_PATTERN = ''(https?://[^/]*)(/[^/]+)*''"

definition ORIGIN_REGEXP :: regexp where
  "ORIGIN_REGEXP = the (RegExp (''^'' @ ORIGIN_PATTERN) [])"

definition WORD_CHS :: string where
  "WORD_CHS = ''[a-zA-Z0-9_-]+''"

text \<open>
  \<^verbatim>\<open>`${WORD_CHS}@*${WORD_CHS}\.*${WORD_CHS}`\<close>: the text between the substitutions is
  template text, so its backslash is consumed when the literal is evaluated.
\<close>

definition GROUP_NAME_PATTERN :: string where
  "GROUP_NAME_PATTERN =
     WORD_CHS @ template_cooked ''@*'' @ WORD_CHS
     @ template_cooked [CHR 0x5C, CHR ''.'', CHR ''*''] @ WORD_CHS"

definition GROUP_NAME_REGEXP :: regexp where
  "GROUP_NAME_REGEXP =
     the (RegExp (template_cooked ''^'' @ GROUP_NAME_PATTERN @ template_cooked ''$'') ''i'')"

section \<open>The collaborators of the options page\<close>

record gerrit_instance =
  host :: string
  name :: string
  enabled :: bool

record OptionsDocument =
  instances :: "gerrit_instance list"
  groupNames :: "string list"

text \<open>
  What the options page does to the document and asks of the browser is kept as a
  trace, in the order of the calls:
  \<^item> \<open>StatusText text ms\<close>: the status element shows \<open>text\<close>, and a timer is set to clear it
    after \<open>ms\<close> milliseconds;
  \<^item> \<open>Checked i\<close>: \<^verbatim>\<open>getElement('instance-' + i).checked = 'true'\<close>;
  \<^item> \<open>InstanceRow name host i enabled\<close>: a table row with two labels and the checkbox
    \<^verbatim>\<open>instance-i\<close>, whose \<^verbatim>\<open>checked\<close> attribute is set to \<open>enabled\<close>;
  \<^item> \<open>GroupNameItem g\<close>: a list item with the text \<open>g\<close>;
  \<^item> \<open>InputValue id v\<close>: \<^verbatim>\<open>getElement(id).value = v\<close>;
  \<^item> \<open>Call_setAllowedOrigins origins\<close> and \<open>Call_saveOptions doc\<close>: the two requests to
    \<^verbatim>\<open>browser.js\<close>.
  The elements that \<^verbatim>\<open>getElement\<close> looks up are taken to exist, and \<^verbatim>\<open>console.log\<close> is
  left out.
\<close>

datatype effect =
    StatusText string nat
  | Checked nat
  | InstanceRow string string nat bool
  | GroupNameItem string
  | InputValue string string
  | Call_setAllowedOrigins "string list"
  | Call_saveOptions OptionsDocument

text \<open>The \<^verbatim>\<open>Options\<close> object: its two arrays, and the trace of what it has done.\<close>

record options =
  this_instances :: "gerrit_instance list"
  this_groupNames :: "string list"
  trace :: "effect list"

text \<open>
  A method is a function from the state before to a completion and the state after. An
  exception does not undo what was done before it was thrown, so the state is returned
  in both cases.
\<close>

type_synonym 'a js = "options \<Rightarrow> 'a completion \<times> options"

definition return_js :: "'a \<Rightarrow> 'a js" where
  "return_js v s = (Normal v, s)"

definition throw_js :: "jsval \<Rightarrow> 'a js" where
  "throw_js e s = (Throw e, s)"

text \<open>
  \<^verbatim>\<open>p.then(f)\<close>: \<open>f\<close> runs on the value of a fulfilled \<open>p\<close>, and what \<open>f\<close> returns or throws
  settles the result; a rejection of \<open>p\<close> passes through. \<^verbatim>\<open>p.catch(h)\<close>: \<open>h\<close> runs on the
  reason of a rejected \<open>p\<close>; a fulfilment passes through. The callbacks run one after the
  other in the order of the chain; events that the browser could deliver between two
  callbacks are not part of the model.
\<close>

definition then_js :: "'a js \<Rightarrow> ('a \<Rightarrow> 'b js) \<Rightarrow> 'b js" where
  "then_js p f s = (case p s of (Normal v, s') \<Rightarrow> f v s' | (Throw e, s') \<Rightarrow> (Throw e, s'))"

definition catch_js :: "'a js \<Rightarrow> (jsval \<Rightarrow> 'a js) \<Rightarrow> 'a js" where
  "catch_js p h s = (case p s of (Normal v, s') \<Rightarrow> (Normal v, s') | (Throw e, s') \<Rightarrow> h e s')"

text \<open>Two statements in sequence: the second runs unless the first throws.\<close>

definition seq_js :: "unit js \<Rightarrow> 'b js \<Rightarrow> 'b js" where
  "seq_js a b = then_js a (\<lambda>_. b)"

text \<open>
  \<^verbatim>\<open>xs.forEach(f)\<close> on an array that \<open>f\<close> does not change: an exception thrown by \<open>f\<close> ends
  the iteration and leaves \<^verbatim>\<open>forEach\<close>.
\<close>

fun forEach :: "'a list \<Rightarrow> ('a \<Rightarrow> unit js) \<Rightarrow> unit js" where
  "forEach [] f s = (Normal (), s)"
| "forEach (x # xs) f s =
     (case f x s of (Normal _, s') \<Rightarrow> forEach xs f s' | (Throw e, s') \<Rightarrow> (Throw e, s'))"

text \<open>
  Modelled from the spec: \<^verbatim>\<open>gerrit.js\<close> and \<^verbatim>\<open>browser.js\<close> are not among the sources. By the
  persistence contract, \<^verbatim>\<open>fetchOptions()\<close> is a promise of the persisted document, and
  \<^verbatim>\<open>saveOptions(doc)\<close> and \<^verbatim>\<open>setAllowedOrigins(origins)\<close> are promises of nothing. How each
  promise settles is a parameter; the two requests are recorded in the trace.
\<close>

definition gerrit_fetchOptions :: "OptionsDocument completion \<Rightarrow> OptionsDocument js" where
  "gerrit_fetchOptions outcome s = (outcome, s)"

definition browser_setAllowedOrigins :: "unit completion \<Rightarrow> string list \<Rightarrow> unit js" where
  "browser_setAllowedOrigins outcome origins s =
     (outcome, s\<lparr>trace := trace s @ [Call_setAllowedOrigins origins]\<rparr>)"

definition browser_saveOptions :: "unit completion \<Rightarrow> OptionsDocument \<Rightarrow> unit js" where
  "browser_saveOptions outcome doc s =
     (outcome, s\<lparr>trace := trace s @ [Call_saveOptions doc]\<rparr>)"

definition set_value :: "string \<Rightarrow> string \<Rightarrow> unit js" where
  "set_value ident v s = (Normal (), s\<lparr>trace := trace s @ [InputValue ident v]\<rparr>)"

section \<open>options.js\<close>

text \<open>The constructor.\<close>

definition new_Options :: options where
  "new_Options = \<lparr>this_instances = [], this_groupNames = [], trace = []\<rparr>"

text \<open>\<^verbatim>\<open>setStatusText(text, opt_timeout)\<close>; the timeout is \<^verbatim>\<open>opt_timeout || 750\<close>.\<close>

definition setStatusText :: "string \<Rightarrow> nat option \<Rightarrow> unit js" where
  "setStatusText text opt_timeout s =
     (Normal (),
      s\<lparr>trace := trace s @
          [StatusText text (case opt_timeout of
                              None \<Rightarrow> 750
                            | Some t \<Rightarrow> if t = 0 then 750 else t)]\<rparr>)"

subsection \<open>addGerritInstance\<close>

text \<open>
  The \<^verbatim>\<open>for\<close> loop over the indices of \<^verbatim>\<open>this.instances_\<close>. \<open>Some\<close> is the state in which the
  method returns from inside the loop; \<open>None\<close> says that the loop ran to its end.
\<close>

function addGerritInstance_for :: "nat \<Rightarrow> string \<Rightarrow> string \<Rightarrow> options \<Rightarrow> options option" where
  "addGerritInstance_for i h n s =
     (if i < length (this_instances s) then
        (if host (this_instances s ! i) = h then
           Some (s\<lparr>this_instances := (this_instances s)[i := (this_instances s ! i)\<lparr>enabled := True, name := n\<rparr>],
                   trace := trace s @ [Checked i]\<rparr>)
         else addGerritInstance_for (Suc i) h n s)
      else None)"
  by pat_completeness auto
termination
  by (relation "measure (\<lambda>(i, h, n, s). length (this_instances s) - i)") auto

definition addGerritInstance :: "string \<Rightarrow> string \<Rightarrow> bool \<Rightarrow> unit js" where
  "addGerritInstance h n e s =
     (case addGerritInstance_for 0 h n s of
        Some s' \<Rightarrow> (Normal (), s')
      | None \<Rightarrow>
          (Normal (),
           s\<lparr>this_instances := this_instances s @ [\<lparr>host = h, name = n, enabled = e\<rparr>],
             trace := trace s @ [InstanceRow n h (length (this_instances s)) e]\<rparr>))"

text \<open>
  The \<^verbatim>\<open>change\<close> listener of the checkbox of row \<open>i\<close>:
  \<^verbatim>\<open>instance.enabled = node.checked\<close>, where \<^verbatim>\<open>instance\<close> is the object at index \<open>i\<close>.
\<close>

definition instance_checkbox_change :: "nat \<Rightarrow> bool \<Rightarrow> unit js" where
  "instance_checkbox_change i checked s =
     (Normal (),
      if i < length (this_instances s)
      then s\<lparr>this_instances := (this_instances s)[i := (this_instances s ! i)\<lparr>enabled := checked\<rparr>]\<rparr>
      else s)"

subsection \<open>addGroupName\<close>

text \<open>
  The callback given to \<^verbatim>\<open>forEach\<close> is a plain \<^verbatim>\<open>function\<close> that is not bound, and a class
  body is strict code: inside the callback \<^verbatim>\<open>this\<close> is \<^verbatim>\<open>undefined\<close>. Reading
  \<^verbatim>\<open>this.setStatusText\<close> therefore throws a \<^verbatim>\<open>TypeError\<close> before \<^verbatim>\<open>setStatusText\<close> is
  called, the exception leaves \<^verbatim>\<open>forEach\<close> and \<^verbatim>\<open>addGroupName\<close>, and the statements after
  the loop do not run. (The text of the message is the engine's.)
\<close>

definition undefined_this :: "string \<Rightarrow> jsval" where
  "undefined_this property =
     JSError ''TypeError'' (''Cannot read properties of undefined (reading '' @ [CHR 0x27]
                            @ property @ [CHR 0x27] @ '')'')"

definition addGroupName :: "string \<Rightarrow> unit js" where
  "addGroupName groupName s =
     seq_js
       (forEach (this_groupNames s)
          (\<lambda>nm. if nm = groupName then throw_js (undefined_this ''setStatusText'')
                 else return_js ()))
       (\<lambda>s'. (Normal (),
               s'\<lparr>this_groupNames := this_groupNames s' @ [groupName],
                  trace := trace s' @ [GroupNameItem groupName]\<rparr>))
       s"

subsection \<open>loadOptions\<close>

definition applyInstanceOptions :: "gerrit_instance list \<Rightarrow> unit js" where
  "applyInstanceOptions insts =
     forEach insts (\<lambda>inst. addGerritInstance (host inst) (name inst) (enabled inst))"

definition applyGroupNameOptions :: "string list \<Rightarrow> unit js" where
  "applyGroupNameOptions gs = forEach gs (\<lambda>groupName. addGroupName groupName)"

text \<open>
  \<open>fetched\<close> is how the promise of \<^verbatim>\<open>gerrit.fetchOptions()\<close> settles. The completion of
  \<open>loadOptions\<close> is how the promise that it returns settles.
\<close>

definition loadOptions :: "OptionsDocument completion \<Rightarrow> unit js" where
  "loadOptions fetched =
     then_js (gerrit_fetchOptions fetched)
       (\<lambda>doc. seq_js (applyInstanceOptions (instances doc))
                      (applyGroupNameOptions (groupNames doc)))"

subsection \<open>saveInstanceOptions\<close>

text \<open>The \<^verbatim>\<open>forEach\<close> that fills the local array \<^verbatim>\<open>origins\<close>.\<close>

fun saveInstanceOptions_forEach :: "gerrit_instance list \<Rightarrow> string list \<Rightarrow> string list" where
  "saveInstanceOptions_forEach [] origins = origins"
| "saveInstanceOptions_forEach (inst # insts) origins =
     saveInstanceOptions_forEach insts
       (if enabled inst then
          (case exec ORIGIN_REGEXP (host inst) of
             Some m \<Rightarrow> origins @ [js_add (match_at m 1) ''/*'']
           | None \<Rightarrow> origins)
        else origins)"

text \<open>
  \<open>allowed\<close> and \<open>saved\<close> are how the promises of \<^verbatim>\<open>setAllowedOrigins\<close> and \<^verbatim>\<open>saveOptions\<close>
  settle. The document holds the two arrays themselves, not copies.
\<close>

definition saveInstanceOptions :: "unit completion \<Rightarrow> unit completion \<Rightarrow> unit js" where
  "saveInstanceOptions allowed saved s =
     (let origins = saveInstanceOptions_forEach (this_instances s) [];
          doc = \<lparr>instances = this_instances s, groupNames = this_groupNames s\<rparr>
      in catch_js
           (then_js
              (then_js (browser_setAllowedOrigins allowed origins)
                       (\<lambda>_. browser_saveOptions saved doc))
              (\<lambda>_. setStatusText ''Options saved.'' None))
           (\<lambda>error. setStatusText (String error) None)
           s)"

subsection \<open>saveGroupNameOptions\<close>

text \<open>The \<^verbatim>\<open>forEach\<close> that fills the local arrays \<^verbatim>\<open>groups\<close> and \<^verbatim>\<open>invalidGroups\<close>.\<close>

fun saveGroupNameOptions_forEach ::
    "string list \<Rightarrow> string list \<times> string list \<Rightarrow> string list \<times> string list" where
  "saveGroupNameOptions_forEach [] (groups, invalidGroups) = (groups, invalidGroups)"
| "saveGroupNameOptions_forEach (groupName # rest) (groups, invalidGroups) =
     saveGroupNameOptions_forEach rest
       (if exec GROUP_NAME_REGEXP groupName \<noteq> None
        then (groups @ [groupName], invalidGroups)
        else (groups, invalidGroups @ [groupName]))"

text \<open>
  The method returns nothing: the promise chain is not returned, and its \<^verbatim>\<open>catch\<close> handles
  every rejection.
\<close>

definition saveGroupNameOptions :: "unit completion \<Rightarrow> unit js" where
  "saveGroupNameOptions saved s =
     (let doc = \<lparr>instances = this_instances s, groupNames = this_groupNames s\<rparr>;
          (groups, invalidGroups) = saveGroupNameOptions_forEach (this_groupNames s) ([], [])
      in if length invalidGroups > 0 then
           setStatusText (''Invalid group names: '' @ join invalidGroups '', '') None s
         else if length groups = 0 then
           setStatusText ''Nothing to save'' None s
         else
           seq_js
             (catch_js
                (then_js (browser_saveOptions saved doc)
                         (\<lambda>_. setStatusText ''Options saved.'' None))
                (\<lambda>error. setStatusText (String error) None))
             (return_js ())
             s)"

subsection \<open>The click handlers\<close>

text \<open>
  The listener that \<^verbatim>\<open>handleInstanceAdd\<close> puts on \<^verbatim>\<open>add-group-button\<close>; \<open>nm\<close> is the value of
  the input \<^verbatim>\<open>add-group-name\<close> when the button is clicked.
\<close>

definition add_group_button_click :: "string \<Rightarrow> unit js" where
  "add_group_button_click nm =
     (case exec GROUP_NAME_REGEXP nm of
        Some m \<Rightarrow> seq_js (addGroupName nm) (set_value ''add-group-name'' [])
      | None \<Rightarrow> setStatusText ''Incorrect group name values.'' None)"

text \<open>
  The listener that \<^verbatim>\<open>handleGroupNameAdd\<close> puts on \<^verbatim>\<open>add-button\<close>; \<open>h\<close> and \<open>n\<close> are the
  values of the inputs \<^verbatim>\<open>add-button-host\<close> and \<^verbatim>\<open>add-button-name\<close>.
\<close>

definition add_button_click :: "string \<Rightarrow> string \<Rightarrow> unit js" where
  "add_button_click h n =
     (let host_is_valid =
            (case exec ORIGIN_REGEXP h of
               None \<Rightarrow> False
             | Some m \<Rightarrow> (case match_at m 0 of
                            Some whole \<Rightarrow> length whole = length h
                          | None \<Rightarrow> False))
      in if host_is_valid \<and> length n \<noteq> 0 then
           seq_js (addGerritInstance h n True)
             (seq_js (set_value ''add-button-host'' []) (set_value ''add-button-name'' []))
         else setStatusText ''Incorrect instance values.'' None)"

section \<open>Auxiliary definitions\<close>

text \<open>
  The effect of \<open>addGerritInstance\<close> on the array when the host is already there, as a
  function on lists: the first instance with the host is enabled and takes the name.
\<close>

fun update_first :: "string \<Rightarrow> string \<Rightarrow> gerrit_instance list \<Rightarrow> gerrit_instance list" where
  "update_first h n [] = []"
| "update_first h n (x # xs) =
     (if host x = h then x\<lparr>enabled := True, name := n\<rparr> # xs else x # update_first h n xs)"


text \<open>Names for the parts of the two compiled expressions.\<close>

definition word_class :: re where
  "word_class = Cls False [(CHR ''a'', CHR ''z''), (CHR ''A'', CHR ''Z''),
                   (CHR ''0'', CHR ''9''), (CHR ''_'', CHR ''_''), (CHR ''-'', CHR ''-'')]"

definition not_slash :: re where
  "not_slash = Cls True [(CHR ''/'', CHR ''/'')]"

definition origin_group :: re where
  "origin_group =
     Cat (Chr CHR ''h'') (Cat (Chr CHR ''t'') (Cat (Chr CHR ''t'') (Cat (Chr CHR ''p'')
       (Cat (Opt (Chr CHR ''s'')) (Cat (Chr CHR '':'') (Cat (Chr CHR ''/'') (Cat (Chr CHR ''/'')
         (Cat (Star not_slash) Eps))))))))"

definition path_group :: re where
  "path_group = Cat (Chr CHR ''/'') (Cat (Cat not_slash (Star not_slash)) Eps)"


text \<open>
  The origin as the specification words it: the scheme and host portion of a URL, for
  the two schemes of the origin pattern.
\<close>

definition spec_origin :: "string \<Rightarrow> string option" where
  "spec_origin h =
     (if take 8 h = ''https://''
      then Some (''https://'' @ takeWhile (\<lambda>c. c \<noteq> CHR ''/'') (drop 8 h))
      else if take 7 h = ''http://''
      then Some (''http://'' @ takeWhile (\<lambda>c. c \<noteq> CHR ''/'') (drop 7 h))
      else None)"


text \<open>
  The group-name expression as the specification words it: the same pattern with an
  escaped, hence literal, dot, matched without regard to case.
\<close>

definition spec_GROUP_NAME_PATTERN :: string where
  "spec_GROUP_NAME_PATTERN =
     ''^[a-zA-Z0-9_-]+@*[a-zA-Z0-9_-]+'' @ [CHR 0x5C] @ ''.*[a-zA-Z0-9_-]+$''"

definition spec_GROUP_NAME_REGEXP :: regexp where
  "spec_GROUP_NAME_REGEXP = the (RegExp spec_GROUP_NAME_PATTERN ''i'')"


text \<open>
  An example array: an enabled instance with a path, an enabled instance whose host is
  no origin, and a disabled instance.
\<close>

definition three_instances :: "gerrit_instance list" where
  "three_instances =
     [\<lparr>host = ''https://a.example/r'', name = ''A'', enabled = True\<rparr>,
      \<lparr>host = ''ftp://b.example'', name = ''B'', enabled = True\<rparr>,
      \<lparr>host = ''https://c.example'', name = ''C'', enabled = False\<rparr>]"


section \<open>Properties\<close>

declare addGerritInstance_for.simps [simp del]

lemmas js_defs = then_js_def catch_js_def seq_js_def return_js_def throw_js_def
  setStatusText_def browser_setAllowedOrigins_def browser_saveOptions_def
  gerrit_fetchOptions_def set_value_def

lemma new_Options_simps [simp]:
  "this_instances new_Options = []" "this_groupNames new_Options = []" "trace new_Options = []"
  by (simp_all add: new_Options_def)


subsection \<open>The compiled expressions\<close>

lemma ORIGIN_REGEXP_eq:
  "ORIGIN_REGEXP =
     \<lparr>source =
        Cat Bol
         (Cat (Grp 1
                (Cat (Chr CHR ''h'') (Cat (Chr CHR ''t'') (Cat (Chr CHR ''t'') (Cat (Chr CHR ''p'')
                  (Cat (Opt (Chr CHR ''s'')) (Cat (Chr CHR '':'') (Cat (Chr CHR ''/'') (Cat (Chr CHR ''/'')
                    (Cat (Star (Cls True [(CHR ''/'', CHR ''/'')])) Eps))))))))))
           (Cat (Star (Grp 2 (Cat (Chr CHR ''/'')
                   (Cat (Cat (Cls True [(CHR ''/'', CHR ''/'')]) (Star (Cls True [(CHR ''/'', CHR ''/'')]))) Eps))))
             Eps)),
      ignoreCase = False, nGroups = 2\<rparr>"
  by (simp add: ORIGIN_REGEXP_def ORIGIN_PATTERN_def RegExp_def syntax_character_def)

lemma ORIGIN_REGEXP_groups:
  "ORIGIN_REGEXP =
     \<lparr>source = Cat Bol (Cat (Grp 1 origin_group) (Cat (Star (Grp 2 path_group)) Eps)),
      ignoreCase = False, nGroups = 2\<rparr>"
  by (simp add: ORIGIN_REGEXP_eq origin_group_def path_group_def not_slash_def)

lemma GROUP_NAME_PATTERN_eq:
  "GROUP_NAME_PATTERN = ''[a-zA-Z0-9_-]+@*[a-zA-Z0-9_-]+.*[a-zA-Z0-9_-]+''"
  by (simp add: GROUP_NAME_PATTERN_def WORD_CHS_def escape_character_def)

lemma GROUP_NAME_REGEXP_eq:
  "GROUP_NAME_REGEXP =
     \<lparr>source =
        Cat Bol (Cat (Cat word_class (Star word_class))
          (Cat (Star (Chr CHR ''@''))
            (Cat (Cat word_class (Star word_class))
              (Cat (Star Dot)
                (Cat (Cat word_class (Star word_class)) (Cat Eol Eps)))))),
      ignoreCase = True, nGroups = 0\<rparr>"
  by (simp add: GROUP_NAME_REGEXP_def GROUP_NAME_PATTERN_eq RegExp_def word_class_def)

lemma spec_GROUP_NAME_REGEXP_eq:
  "spec_GROUP_NAME_REGEXP =
     \<lparr>source =
        Cat Bol (Cat (Cat word_class (Star word_class))
          (Cat (Star (Chr CHR ''@''))
            (Cat (Cat word_class (Star word_class))
              (Cat (Star (Chr CHR ''.''))
                (Cat (Cat word_class (Star word_class)) (Cat Eol Eps)))))),
      ignoreCase = True, nGroups = 0\<rparr>"
  by (simp add: spec_GROUP_NAME_REGEXP_def spec_GROUP_NAME_PATTERN_def RegExp_def word_class_def
      syntax_character_def)


text \<open>Evaluation of \<open>exec\<close> on given strings.\<close>

lemmas regexp_eval = upt_conv_Cons exec_def match_at_def canonicalize_def toUpperCase_def
  toLowerCase_def in_ranges_def class_matches_def line_terminator_def clear_caps_def word_class_def

lemma exec_foo_at_bar_baz:
  "exec GROUP_NAME_REGEXP ''foo@bar.baz'' = Some \<lparr>index = 0, captures = [Some ''foo@bar.baz'']\<rparr>"
  by (simp add: GROUP_NAME_REGEXP_eq regexp_eval)

lemma exec_foo_slash_bar:
  "exec GROUP_NAME_REGEXP ''foo/bar'' = Some \<lparr>index = 0, captures = [Some ''foo/bar'']\<rparr>"
  by (simp add: GROUP_NAME_REGEXP_eq regexp_eval)

lemma spec_exec_foo_slash_bar: "exec spec_GROUP_NAME_REGEXP ''foo/bar'' = None"
  by (simp add: spec_GROUP_NAME_REGEXP_eq regexp_eval)

lemma spec_exec_foo_at_bar_baz: "exec spec_GROUP_NAME_REGEXP ''foo@bar.baz'' \<noteq> None"
  by (simp add: spec_GROUP_NAME_REGEXP_eq regexp_eval)

lemma exec_team_x:
  "exec GROUP_NAME_REGEXP ''team-x'' = Some \<lparr>index = 0, captures = [Some ''team-x'']\<rparr>"
  by (simp add: GROUP_NAME_REGEXP_eq regexp_eval)

lemma exec_short: "exec GROUP_NAME_REGEXP ''ab'' = None"
  by (simp add: GROUP_NAME_REGEXP_eq regexp_eval)

lemma exec_abc: "exec GROUP_NAME_REGEXP ''abc'' \<noteq> None"
  by (simp add: GROUP_NAME_REGEXP_eq regexp_eval)

lemma exec_a: "exec GROUP_NAME_REGEXP ''a'' = None"
  by (simp add: GROUP_NAME_REGEXP_eq regexp_eval)

lemma exec_b_slash: "exec GROUP_NAME_REGEXP ''b/'' = None"
  by (simp add: GROUP_NAME_REGEXP_eq regexp_eval)

lemma exec_ORIGIN_a:
  "exec ORIGIN_REGEXP ''https://a.example/r'' =
     Some \<lparr>index = 0, captures = [Some ''https://a.example/r'', Some ''https://a.example'', Some ''/r'']\<rparr>"
  by (simp add: ORIGIN_REGEXP_eq regexp_eval)

lemma exec_ORIGIN_b: "exec ORIGIN_REGEXP ''ftp://b.example'' = None"
  by (simp add: ORIGIN_REGEXP_eq regexp_eval)


subsection \<open>The matcher\<close>

text \<open>
  Membership in a class as the language specification states it: some member of the
  class has the same canonical form as the character.
\<close>

lemma of_char_less_256: "(of_char c :: nat) < 256"
  by (metis of_char_mod_256 mod_less_divisor zero_less_numeral)

lemma of_char_toUpperCase:
  "(of_char (toUpperCase c) :: nat) =
     (if 97 \<le> (of_char c :: nat) \<and> (of_char c :: nat) \<le> 122 then of_char c - 32 else of_char c)"
  by (auto simp add: toUpperCase_def less_eq_char_def)

lemma of_char_toLowerCase:
  "(of_char (toLowerCase c) :: nat) =
     (if 65 \<le> (of_char c :: nat) \<and> (of_char c :: nat) \<le> 90 then of_char c + 32 else of_char c)"
  using of_char_less_256 [of c] by (simp add: toLowerCase_def less_eq_char_def)

lemma toUpperCase_eq_iff:
  "toUpperCase a = toUpperCase c \<longleftrightarrow> a = c \<or> a = toUpperCase c \<or> a = toLowerCase c"
proof -
  have 1: "toUpperCase a = toUpperCase c \<longleftrightarrow>
           (of_char (toUpperCase a) :: nat) = of_char (toUpperCase c)" by simp
  have 2: "a = c \<longleftrightarrow> (of_char a :: nat) = of_char c" by simp
  have 3: "a = toUpperCase c \<longleftrightarrow> (of_char a :: nat) = of_char (toUpperCase c)" by simp
  have 4: "a = toLowerCase c \<longleftrightarrow> (of_char a :: nat) = of_char (toLowerCase c)" by simp
  show ?thesis
    unfolding 1 2 3 4 of_char_toUpperCase of_char_toLowerCase
    by (auto simp del: of_char_eq_iff)
qed

lemma class_matches_canonical:
  "class_matches ic rs c \<longleftrightarrow> (\<exists>a. in_ranges rs a \<and> canonicalize ic a = canonicalize ic c)"
  by (cases ic) (auto simp: class_matches_def canonicalize_def toUpperCase_eq_iff)


text \<open>A term leaves the captures of the groups outside of it as they are.\<close>

lemma map_of_clear_caps:
  "map_of (clear_caps ns cs) k = (if k \<in> set ns then None else map_of cs k)"
  by (induction cs) (auto simp: clear_caps_def)

lemma clear_caps_Nil [simp]: "clear_caps [] cs = cs"
  by (simp add: clear_caps_def)

lemma mt_keeps_capture:
  "k \<notin> set (groups_in r) \<Longrightarrow> (rest', cs') \<in> set (mt ic inp r st) \<Longrightarrow>
   map_of cs' k = map_of (snd st) k"
proof (induction ic inp r st arbitrary: rest' cs' rule: mt.induct)
  case (1 ic inp st)
  then show ?case by auto
next
  case (2 ic inp c rest cs)
  then show ?case by (auto split: list.splits if_splits)
next
  case (3 ic inp rest cs)
  then show ?case by (auto split: list.splits if_splits)
next
  case (4 ic inp neg rs rest cs)
  then show ?case by (auto split: list.splits if_splits)
next
  case (5 ic inp rest cs)
  then show ?case by (auto split: if_splits)
next
  case (6 ic inp rest cs)
  then show ?case by (auto split: if_splits)
next
  case (7 ic inp n r rest cs)
  from "7.prems" obtain cs0 where
    m: "(rest', cs0) \<in> set (mt ic inp r (rest, cs))" and
    c: "cs' = (n, take (length rest - length rest') rest) # clear_caps [n] cs0"
    by auto
  from "7.prems" have k: "k \<noteq> n" "k \<notin> set (groups_in r)" by auto
  from "7.IH" [OF k(2) m] have "map_of cs0 k = map_of cs k" by simp
  with c k show ?case by (simp add: map_of_clear_caps)
next
  case (8 ic inp r1 r2 st)
  from "8.prems" obtain mid where
    m1: "mid \<in> set (mt ic inp r1 st)" and m2: "(rest', cs') \<in> set (mt ic inp r2 mid)"
    by auto
  obtain rest1 cs1 where mid: "mid = (rest1, cs1)" by (cases mid)
  from "8.prems" have k: "k \<notin> set (groups_in r1)" "k \<notin> set (groups_in r2)" by auto
  from "8.IH"(1) [OF k(1)] m1 mid have "map_of cs1 k = map_of (snd st) k" by simp
  moreover from "8.IH"(2) [OF m1 k(2) m2] mid have "map_of cs' k = map_of cs1 k" by simp
  ultimately show ?case by simp
next
  case (9 ic inp r rest cs)
  from "9.prems"(1) have k: "k \<notin> set (groups_in r)" by simp
  have unfold: "mt ic inp (Star r) (rest, cs) =
      concat (map (\<lambda>(rest', cs'). if length rest' < length rest
                                    then mt ic inp (Star r) (rest', cs') else [])
                  (mt ic inp r (rest, clear_caps (groups_in r) cs)))
      @ [(rest, cs)]"
    by (rule mt.simps)
  from "9.prems"(2) consider
    (stop) "(rest', cs') = (rest, cs)" |
    (iter) rest1 cs1 where "(rest1, cs1) \<in> set (mt ic inp r (rest, clear_caps (groups_in r) cs))"
      "length rest1 < length rest" "(rest', cs') \<in> set (mt ic inp (Star r) (rest1, cs1))"
    unfolding unfold by (auto simp del: mt.simps split: if_splits)
  then show ?case
  proof cases
    case stop
    then show ?thesis by simp
  next
    case iter
    from "9.IH"(1) [OF k iter(1)] k have "map_of cs1 k = map_of cs k"
      by (simp add: map_of_clear_caps)
    moreover from "9.IH"(2) [OF iter(1) refl iter(2) "9.prems"(1) iter(3)]
    have "map_of cs' k = map_of cs1 k" by simp
    ultimately show ?thesis by simp
  qed
next
  case (10 ic inp r rest cs)
  from "10.prems"(1) have k: "k \<notin> set (groups_in r)" by simp
  from "10.prems"(2) consider
    (stop) "(rest', cs') = (rest, cs)" |
    (once) "(rest', cs') \<in> set (mt ic inp r (rest, clear_caps (groups_in r) cs))"
    by auto
  then show ?case
  proof cases
    case stop
    then show ?thesis by simp
  next
    case once
    from "10.IH" [OF k once] k show ?thesis by (simp add: map_of_clear_caps)
  qed
qed


text \<open>A starred term always has a match; the first match of \<^verbatim>\<open>[^/]*\<close> is the longest.\<close>

lemma mt_Star_nonempty: "mt ic inp (Star r) st \<noteq> []"
  by (cases st) simp

lemma mt_Star_Eps: "mt ic inp (Cat (Star r) Eps) st = mt ic inp (Star r) st"
proof -
  have "mt ic inp Eps = (\<lambda>st. [st])" by (rule ext) simp
  then show ?thesis by (simp del: mt.simps(9))
qed

lemma mt_Star_Eps_fun: "mt ic inp (Cat (Star r) Eps) = mt ic inp (Star r)"
  by (rule ext) (rule mt_Star_Eps)

lemma in_ranges_single: "in_ranges [(a, a)] c \<longleftrightarrow> c = a"
  by (auto simp: in_ranges_def)

lemma hd_mt_Star_not_slash:
  "hd (mt False inp (Star not_slash) (x, cs)) = (dropWhile (\<lambda>c. c \<noteq> CHR ''/'') x, cs)"
proof (induction x)
  case Nil
  then show ?case by (simp add: not_slash_def)
next
  case (Cons c x)
  show ?case
  proof (cases "c = CHR ''/''")
    case True
    then show ?thesis by (simp add: not_slash_def class_matches_def in_ranges_single)
  next
    case False
    have "mt False inp (Star not_slash) (c # x, cs) =
            mt False inp (Star not_slash) (x, cs) @ [(c # x, cs)]"
      using False by (simp add: not_slash_def class_matches_def in_ranges_single)
    with Cons False mt_Star_nonempty [of False inp not_slash "(x, cs)"] show ?thesis
      by (simp del: mt.simps)
  qed
qed

lemma hd_concat_map:
  "xs \<noteq> [] \<Longrightarrow> f (hd xs) \<noteq> [] \<Longrightarrow>
   concat (map f xs) \<noteq> [] \<and> hd (concat (map f xs)) = hd (f (hd xs))"
  by (cases xs) auto


text \<open>The origin expression: what its first group consumes, and what \<open>exec\<close> returns.\<close>

lemma mt_Chr_Cat:
  "mt False inp (Cat (Chr c) r) (rest, cs) =
     (case rest of [] \<Rightarrow> [] | x # rest' \<Rightarrow> if x = c then mt False inp r (rest', cs) else [])"
  by (cases rest) (simp_all add: canonicalize_def)

lemma mt_Opt_Chr_Cat:
  "mt False inp (Cat (Opt (Chr c)) r) (rest, cs) =
     (case rest of
        [] \<Rightarrow> mt False inp r ([], cs)
      | x # rest' \<Rightarrow> (if x = c then mt False inp r (rest', cs) else []) @ mt False inp r (rest, cs))"
  by (cases rest) (simp_all add: canonicalize_def)

lemma mt_origin_group:
  "mt False inp origin_group (h, cs) =
     (if take 8 h = ''https://'' then mt False inp (Star not_slash) (drop 8 h, cs)
      else if take 7 h = ''http://'' then mt False inp (Star not_slash) (drop 7 h, cs)
      else [])"
  unfolding origin_group_def
  by (simp add: mt_Chr_Cat mt_Opt_Chr_Cat mt_Star_Eps del: mt.simps split: list.splits)

lemma mt_ORIGIN_REGEXP:
  "mt False h (source ORIGIN_REGEXP) (h, []) =
     concat (map (mt False h (Star (Grp 2 path_group)))
       (map (\<lambda>(rest', cs'). (rest', (1, take (length h - length rest') h) # clear_caps [1] cs'))
            (mt False h origin_group (h, []))))"
  by (simp add: ORIGIN_REGEXP_groups mt_Star_Eps_fun del: mt.simps(9))

lemma exec_at_ORIGIN_REGEXP_later:
  "length rest < length inp \<Longrightarrow> exec_at ORIGIN_REGEXP inp rest = None"
  by (induction rest) (simp_all add: ORIGIN_REGEXP_groups del: mt.simps(9))

lemma exec_ORIGIN_REGEXP_no_match:
  assumes "mt False h origin_group (h, []) = []"
  shows "exec ORIGIN_REGEXP h = None"
proof -
  have e: "mt (ignoreCase ORIGIN_REGEXP) h (source ORIGIN_REGEXP) (h, []) = []"
    using assms mt_ORIGIN_REGEXP [of h] by (simp add: ORIGIN_REGEXP_groups del: mt.simps)
  have u: "exec_at ORIGIN_REGEXP h h =
      (case h of [] \<Rightarrow> None | _ # rest'' \<Rightarrow> exec_at ORIGIN_REGEXP h rest'')"
    by (subst exec_at.simps) (simp add: e del: mt.simps exec_at.simps)
  show ?thesis
  proof (cases h)
    case Nil
    with u show ?thesis by (simp add: exec_def del: mt.simps exec_at.simps)
  next
    case (Cons c x)
    then have "exec_at ORIGIN_REGEXP h x = None"
      by (simp add: exec_at_ORIGIN_REGEXP_later del: exec_at.simps)
    with u Cons show ?thesis by (simp add: exec_def del: mt.simps exec_at.simps)
  qed
qed

lemma exec_ORIGIN_REGEXP_match:
  assumes ne: "mt False h origin_group (h, []) \<noteq> []"
    and first: "hd (mt False h origin_group (h, [])) = (r0, [])"
  shows "\<exists>m. exec ORIGIN_REGEXP h = Some m \<and>
              match_at m 1 = Some (take (length h - length r0) h)"
proof -
  let ?wrap = "\<lambda>(rest', cs'). (rest', (1, take (length h - length rest') h) # clear_caps [1] cs')"
  let ?L = "map ?wrap (mt False h origin_group (h, []))"
  let ?S = "Star (Grp 2 path_group)"
  let ?cap = "take (length h - length r0) h"
  from ne have Lne: "?L \<noteq> []" by (simp del: mt.simps)
  from ne first have hdL: "hd ?L = (r0, [(1, ?cap)])"
    by (simp add: hd_map clear_caps_def del: mt.simps)
  have "mt False h ?S (hd ?L) \<noteq> []" by (rule mt_Star_nonempty)
  with Lne have c: "concat (map (mt False h ?S) ?L) \<noteq> []"
    and h: "hd (concat (map (mt False h ?S) ?L)) = hd (mt False h ?S (hd ?L))"
    using hd_concat_map [of ?L "mt False h ?S"] by blast+
  obtain rest' cs' where rc: "hd (mt False h ?S (r0, [(1, ?cap)])) = (rest', cs')"
    by (cases "hd (mt False h ?S (r0, [(1, ?cap)]))")
  have "hd (mt False h ?S (r0, [(1, ?cap)])) \<in> set (mt False h ?S (r0, [(1, ?cap)]))"
    by (rule hd_in_set) (rule mt_Star_nonempty)
  with rc have mem: "(rest', cs') \<in> set (mt False h ?S (r0, [(1, ?cap)]))"
    by (simp del: mt.simps)
  have fresh: "1 \<notin> set (groups_in ?S)" by (simp add: path_group_def not_slash_def)
  from mt_keeps_capture [OF fresh mem]
  have "map_of cs' 1 = map_of (snd (r0, [(1::nat, ?cap)])) 1" .
  then have cap: "map_of cs' 1 = Some ?cap" by simp
  from c h hdL rc obtain t where
    "mt False h (source ORIGIN_REGEXP) (h, []) = (rest', cs') # t"
    unfolding mt_ORIGIN_REGEXP
    by (cases "concat (map (mt False h ?S) ?L)") (auto simp del: mt.simps)
  then have "mt (ignoreCase ORIGIN_REGEXP) h (source ORIGIN_REGEXP) (h, []) = (rest', cs') # t"
    by (simp add: ORIGIN_REGEXP_groups del: mt.simps)
  then have "exec ORIGIN_REGEXP h =
      Some \<lparr>index = 0, captures = Some (take (length h - length rest') h)
                                    # map (map_of cs') [1..<Suc (nGroups ORIGIN_REGEXP)]\<rparr>"
    by (simp add: exec_def del: mt.simps)
  moreover have "nGroups ORIGIN_REGEXP = 2" by (simp add: ORIGIN_REGEXP_groups)
  ultimately show ?thesis using cap
    by (simp add: match_at_def upt_conv_Cons del: mt.simps)
qed

lemma take_length_dropWhile:
  "take (length (p @ x) - length (dropWhile P x)) (p @ x) = p @ takeWhile P x"
proof -
  have "length x = length (takeWhile P x) + length (dropWhile P x)"
    by (metis length_append takeWhile_dropWhile_id)
  then have "length (p @ x) - length (dropWhile P x) = length p + length (takeWhile P x)"
    by simp
  moreover have "take (length (takeWhile P x)) x = takeWhile P x"
    by (metis append_eq_conv_conj takeWhile_dropWhile_id)
  ultimately show ?thesis by simp
qed

lemma exec_ORIGIN_REGEXP_spec_origin:
  "(spec_origin h = None \<longrightarrow> exec ORIGIN_REGEXP h = None) \<and>
   (\<forall>origin. spec_origin h = Some origin \<longrightarrow>
      (\<exists>m. exec ORIGIN_REGEXP h = Some m \<and> match_at m 1 = Some origin))"
proof (cases "take 8 h = ''https://''")
  case True
  let ?x = "drop 8 h"
  from True have h: "h = ''https://'' @ ?x" by (metis append_take_drop_id)
  from True have m: "mt False h origin_group (h, []) = mt False h (Star not_slash) (?x, [])"
    by (simp add: mt_origin_group del: mt.simps)
  have ne: "mt False h origin_group (h, []) \<noteq> []"
    unfolding m by (rule mt_Star_nonempty)
  have first: "hd (mt False h origin_group (h, [])) = (dropWhile (\<lambda>c. c \<noteq> CHR ''/'') ?x, [])"
    unfolding m by (rule hd_mt_Star_not_slash)
  from exec_ORIGIN_REGEXP_match [OF ne first] obtain m where
    "exec ORIGIN_REGEXP h = Some m"
    "match_at m 1 = Some (take (length h - length (dropWhile (\<lambda>c. c \<noteq> CHR ''/'') ?x)) h)"
    by blast
  moreover have "take (length h - length (dropWhile (\<lambda>c. c \<noteq> CHR ''/'') ?x)) h
      = ''https://'' @ takeWhile (\<lambda>c. c \<noteq> CHR ''/'') ?x"
    using take_length_dropWhile [of "''https://''" ?x "\<lambda>c. c \<noteq> CHR ''/''"]
    by (simp only: h [symmetric])
  ultimately show ?thesis using True by (simp add: spec_origin_def)
next
  case False
  note not_https = False
  show ?thesis
  proof (cases "take 7 h = ''http://''")
    case True
    let ?x = "drop 7 h"
    from True have h: "h = ''http://'' @ ?x" by (metis append_take_drop_id)
    from True not_https have m: "mt False h origin_group (h, []) = mt False h (Star not_slash) (?x, [])"
      by (simp add: mt_origin_group del: mt.simps)
    have ne: "mt False h origin_group (h, []) \<noteq> []"
      unfolding m by (rule mt_Star_nonempty)
    have first: "hd (mt False h origin_group (h, [])) = (dropWhile (\<lambda>c. c \<noteq> CHR ''/'') ?x, [])"
      unfolding m by (rule hd_mt_Star_not_slash)
    from exec_ORIGIN_REGEXP_match [OF ne first] obtain m where
      "exec ORIGIN_REGEXP h = Some m"
      "match_at m 1 = Some (take (length h - length (dropWhile (\<lambda>c. c \<noteq> CHR ''/'') ?x)) h)"
      by blast
    moreover have "take (length h - length (dropWhile (\<lambda>c. c \<noteq> CHR ''/'') ?x)) h
        = ''http://'' @ takeWhile (\<lambda>c. c \<noteq> CHR ''/'') ?x"
      using take_length_dropWhile [of "''http://''" ?x "\<lambda>c. c \<noteq> CHR ''/''"]
      by (simp only: h [symmetric])
    ultimately show ?thesis using True not_https by (simp add: spec_origin_def)
  next
    case False
    with not_https have "mt False h origin_group (h, []) = []"
      by (simp add: mt_origin_group del: mt.simps)
    then have "exec ORIGIN_REGEXP h = None" by (rule exec_ORIGIN_REGEXP_no_match)
    with False not_https show ?thesis by (simp add: spec_origin_def)
  qed
qed


subsection \<open>addGerritInstance\<close>

lemma addGerritInstance_for_empty: "this_instances s = [] \<Longrightarrow> addGerritInstance_for i h n s = None"
  by (simp add: addGerritInstance_for.simps)

lemma addGerritInstance_for_instances:
  "map_option this_instances (addGerritInstance_for i h n s) =
     (if h \<in> host ` set (drop i (this_instances s))
      then Some (take i (this_instances s) @ update_first h n (drop i (this_instances s)))
      else None)"
proof (induction i h n s rule: addGerritInstance_for.induct)
  case (1 i h n s)
  let ?L = "this_instances s"
  show ?case
  proof (cases "i < length ?L")
    case False
    then show ?thesis by (simp add: addGerritInstance_for.simps)
  next
    case True
    then have d: "drop i ?L = ?L ! i # drop (Suc i) ?L"
      by (simp add: Cons_nth_drop_Suc)
    show ?thesis
    proof (cases "host (?L ! i) = h")
      case True
      with \<open>i < length ?L\<close> d show ?thesis
        by (simp add: addGerritInstance_for.simps upd_conv_take_nth_drop)
    next
      case False
      with \<open>i < length ?L\<close> d "1.IH" show ?thesis
        by (simp add: addGerritInstance_for.simps take_Suc_conv_app_nth)
    qed
  qed
qed

lemma addGerritInstance_instances:
  "this_instances (snd (addGerritInstance h n e s)) =
     (if h \<in> host ` set (this_instances s)
      then update_first h n (this_instances s)
      else this_instances s @ [\<lparr>host = h, name = n, enabled = e\<rparr>])"
  using addGerritInstance_for_instances [of 0 h n s]
  by (auto simp: addGerritInstance_def split: option.splits)

lemma map_host_update_first [simp]: "map host (update_first h n L) = map host L"
  by (induction L) simp_all

lemma filter_host_absent:
  "h \<notin> host ` set xs \<Longrightarrow> filter (\<lambda>i. host i = h) xs = []"
  by (induction xs) auto

lemma filter_update_first_same:
  "distinct (map host L) \<Longrightarrow> h \<in> host ` set L \<Longrightarrow>
   filter (\<lambda>i. host i = h) (update_first h n L) = [\<lparr>host = h, name = n, enabled = True\<rparr>]"
proof (induction L)
  case Nil
  then show ?case by simp
next
  case (Cons x xs)
  show ?case
  proof (cases "host x = h")
    case True
    with Cons.prems have "h \<notin> host ` set xs" by simp
    then have "filter (\<lambda>i. host i = h) xs = []" by (rule filter_host_absent)
    with True show ?thesis by simp
  next
    case False
    with Cons show ?thesis by auto
  qed
qed

lemma addGerritInstance_hosts:
  "map host (this_instances (snd (addGerritInstance h n e s))) =
     (if h \<in> host ` set (this_instances s) then map host (this_instances s)
      else map host (this_instances s) @ [h])"
  by (simp add: addGerritInstance_instances)


text \<open>Hosts stay pairwise distinct, so they are in every state reached from the empty one.\<close>

lemma addGerritInstance_distinct:
  "distinct (map host (this_instances s)) \<Longrightarrow>
   distinct (map host (this_instances (snd (addGerritInstance h n e s))))"
  by (auto simp: addGerritInstance_hosts)

lemma addGerritInstance_member:
  "h \<in> host ` set (this_instances (snd (addGerritInstance h n e s)))"
proof -
  have "h \<in> set (map host (this_instances (snd (addGerritInstance h n e s))))"
    unfolding addGerritInstance_hosts by simp
  then show ?thesis by simp
qed

lemma addGerritInstance_keeps:
  "h' \<in> host ` set (this_instances s) \<Longrightarrow>
   h' \<in> host ` set (this_instances (snd (addGerritInstance h n e s)))"
proof -
  assume "h' \<in> host ` set (this_instances s)"
  then have "h' \<in> set (map host (this_instances (snd (addGerritInstance h n e s))))"
    unfolding addGerritInstance_hosts by simp
  then show ?thesis by simp
qed

lemma unique_host_filter:
  "distinct (map host L) \<Longrightarrow> h \<in> host ` set L \<Longrightarrow> \<exists>a. filter (\<lambda>i. host i = h) L = [a]"
proof (induction L)
  case Nil
  then show ?case by simp
next
  case (Cons x xs)
  show ?case
  proof (cases "host x = h")
    case True
    with Cons.prems have "h \<notin> host ` set xs" by simp
    then have "filter (\<lambda>i. host i = h) xs = []" by (rule filter_host_absent)
    with True show ?thesis by simp
  next
    case False
    with Cons show ?thesis by auto
  qed
qed


text \<open>
  Claim C1, as amended. In a state whose hosts are pairwise distinct, after two calls of
  \<open>addGerritInstance\<close> with the same host the array holds exactly one instance with that
  host; its name is the name given to the second call, and it is enabled whatever the
  two \<open>enabled\<close> arguments were (a call for an existing host enables the instance). After
  two calls with different hosts the array holds exactly one instance for each host, and
  the two differ.
\<close>

theorem addGerritInstance_twice:
  assumes "distinct (map host (this_instances s))"
  shows "filter (\<lambda>i. host i = h)
           (this_instances (snd (addGerritInstance h n2 e2 (snd (addGerritInstance h n1 e1 s)))))
         = [\<lparr>host = h, name = n2, enabled = True\<rparr>] \<and>
         (h1 \<noteq> h2 \<longrightarrow>
           (\<exists>a b. filter (\<lambda>i. host i = h1)
                     (this_instances (snd (addGerritInstance h2 n2 e2 (snd (addGerritInstance h1 n1 e1 s))))) = [a] \<and>
                   filter (\<lambda>i. host i = h2)
                     (this_instances (snd (addGerritInstance h2 n2 e2 (snd (addGerritInstance h1 n1 e1 s))))) = [b] \<and>
                   a \<noteq> b))"
proof
  let ?s1 = "snd (addGerritInstance h n1 e1 s)"
  have d1: "distinct (map host (this_instances ?s1))"
    using assms by (rule addGerritInstance_distinct)
  have m1: "h \<in> host ` set (this_instances ?s1)"
    by (rule addGerritInstance_member)
  from d1 m1 show "filter (\<lambda>i. host i = h) (this_instances (snd (addGerritInstance h n2 e2 ?s1)))
      = [\<lparr>host = h, name = n2, enabled = True\<rparr>]"
    by (simp add: addGerritInstance_instances filter_update_first_same)
next
  let ?s1 = "snd (addGerritInstance h1 n1 e1 s)"
  let ?L2 = "this_instances (snd (addGerritInstance h2 n2 e2 ?s1))"
  show "h1 \<noteq> h2 \<longrightarrow> (\<exists>a b. filter (\<lambda>i. host i = h1) ?L2 = [a] \<and>
          filter (\<lambda>i. host i = h2) ?L2 = [b] \<and> a \<noteq> b)"
  proof
    assume ne: "h1 \<noteq> h2"
    have d2: "distinct (map host ?L2)"
      using assms by (intro addGerritInstance_distinct)
    have "h1 \<in> host ` set (this_instances ?s1)" by (rule addGerritInstance_member)
    then have m1: "h1 \<in> host ` set ?L2" by (rule addGerritInstance_keeps)
    have m2: "h2 \<in> host ` set ?L2" by (rule addGerritInstance_member)
    from unique_host_filter [OF d2 m1] obtain a where a: "filter (\<lambda>i. host i = h1) ?L2 = [a]" ..
    from unique_host_filter [OF d2 m2] obtain b where b: "filter (\<lambda>i. host i = h2) ?L2 = [b]" ..
    from a have "a \<in> set (filter (\<lambda>i. host i = h1) ?L2)" by simp
    then have ha: "host a = h1" by simp
    from b have "b \<in> set (filter (\<lambda>i. host i = h2) ?L2)" by simp
    then have hb: "host b = h2" by simp
    from ha hb ne have "a \<noteq> b" by auto
    with a b show "\<exists>a b. filter (\<lambda>i. host i = h1) ?L2 = [a] \<and>
          filter (\<lambda>i. host i = h2) ?L2 = [b] \<and> a \<noteq> b" by blast
  qed
qed

theorem addGerritInstance_twice_witness:
  "distinct (map host (this_instances new_Options)) \<and>
   ''https://a.example'' \<noteq> ''https://b.example'' \<and>
   filter (\<lambda>i. host i = ''https://a.example'')
     (this_instances (snd (addGerritInstance ''https://a.example'' ''B'' False
        (snd (addGerritInstance ''https://a.example'' ''A'' False new_Options)))))
     = [\<lparr>host = ''https://a.example'', name = ''B'', enabled = True\<rparr>] \<and>
   (\<exists>a b. filter (\<lambda>i. host i = ''https://a.example'')
             (this_instances (snd (addGerritInstance ''https://b.example'' ''B'' False
                (snd (addGerritInstance ''https://a.example'' ''A'' False new_Options))))) = [a] \<and>
           filter (\<lambda>i. host i = ''https://b.example'')
             (this_instances (snd (addGerritInstance ''https://b.example'' ''B'' False
                (snd (addGerritInstance ''https://a.example'' ''A'' False new_Options))))) = [b] \<and>
           a \<noteq> b)"
proof -
  have d: "distinct (map host (this_instances new_Options))" by simp
  have n: "''https://a.example'' \<noteq> ''https://b.example''" by simp
  from addGerritInstance_twice [OF d, of "''https://a.example''" "''B''" False "''A''" False
      "''https://a.example''" "''https://b.example''"] d n
  show ?thesis by blast
qed


text \<open>
  The claim as first stated asks for \<open>enabled\<close> to be the argument of the second call.
  With \<open>False\<close> as that argument the instance is enabled all the same.
\<close>

theorem addGerritInstance_twice_enabled_counterexample:
  "this_instances (snd (addGerritInstance ''https://a.example'' ''B'' False
      (snd (addGerritInstance ''https://a.example'' ''A'' False new_Options))))
     = [\<lparr>host = ''https://a.example'', name = ''B'', enabled = True\<rparr>] \<and>
   enabled (hd (this_instances (snd (addGerritInstance ''https://a.example'' ''B'' False
      (snd (addGerritInstance ''https://a.example'' ''A'' False new_Options)))))) \<noteq> False"
  by (simp add: addGerritInstance_instances)


subsection \<open>addGroupName\<close>

lemma forEach_addGroupName:
  "forEach gs (\<lambda>nm. if nm = g then throw_js e else return_js ()) s =
     (if g \<in> set gs then (Throw e, s) else (Normal (), s))"
  by (induction gs) (simp_all add: throw_js_def return_js_def)

lemma addGroupName_eq:
  "addGroupName g s =
     (if g \<in> set (this_groupNames s) then (Throw (undefined_this ''setStatusText''), s)
      else (Normal (), s\<lparr>this_groupNames := this_groupNames s @ [g],
                         trace := trace s @ [GroupNameItem g]\<rparr>))"
  by (simp add: addGroupName_def forEach_addGroupName seq_js_def then_js_def)


lemma addGroupName_distinct:
  "distinct (this_groupNames s) \<Longrightarrow> distinct (this_groupNames (snd (addGroupName g s)))"
  by (simp add: addGroupName_eq)

text \<open>
  Claim C2. For a name that is already in the array the claim asks for a status message
  and no second entry. The code leaves the array as it is, but by an exception: no
  status text is set, and \<open>addGroupName\<close> throws a \<^verbatim>\<open>TypeError\<close>.
\<close>

theorem addGroupName_duplicate_throws:
  "addGroupName ''team-x'' \<lparr>this_instances = [], this_groupNames = [''team-x''], trace = []\<rparr> =
     (Throw (undefined_this ''setStatusText''),
      \<lparr>this_instances = [], this_groupNames = [''team-x''], trace = []\<rparr>)"
  by (simp add: addGroupName_eq)


subsection \<open>The group-name expression\<close>

text \<open>
  Claim C3. The pattern that \<^verbatim>\<open>config.js\<close> builds has an unescaped dot, which stands for
  any character: \<^verbatim>\<open>foo/bar\<close> matches, and the click handler adds it and clears the input
  instead of reporting \<^verbatim>\<open>Incorrect group name values.\<close> The expression of the
  specification, with a literal dot, rejects \<^verbatim>\<open>foo/bar\<close>.
\<close>

theorem add_group_button_click_foo_slash_bar:
  "GROUP_NAME_PATTERN = ''[a-zA-Z0-9_-]+@*[a-zA-Z0-9_-]+.*[a-zA-Z0-9_-]+'' \<and>
   exec GROUP_NAME_REGEXP ''foo/bar'' = Some \<lparr>index = 0, captures = [Some ''foo/bar'']\<rparr> \<and>
   add_group_button_click ''foo/bar'' new_Options =
     (Normal (),
      \<lparr>this_instances = [], this_groupNames = [''foo/bar''],
        trace = [GroupNameItem ''foo/bar'', InputValue ''add-group-name'' []]\<rparr>) \<and>
   exec spec_GROUP_NAME_REGEXP ''foo/bar'' = None"
  by (simp add: GROUP_NAME_PATTERN_eq exec_foo_slash_bar spec_exec_foo_slash_bar
      add_group_button_click_def addGroupName_eq seq_js_def then_js_def set_value_def new_Options_def)


subsection \<open>The click handlers\<close>

text \<open>
  The scenarios of the specification for the two add buttons: a valid host and name add
  an enabled instance and clear the inputs; invalid input only sets the status text.
\<close>

lemma add_button_click_chromium:
  "add_button_click ''https://chromium-review.googlesource.com'' ''Chromium'' new_Options =
     (Normal (),
      \<lparr>this_instances =
         [\<lparr>host = ''https://chromium-review.googlesource.com'', name = ''Chromium'',
            enabled = True\<rparr>],
       this_groupNames = [],
       trace = [InstanceRow ''Chromium'' ''https://chromium-review.googlesource.com'' 0 True,
                InputValue ''add-button-host'' [], InputValue ''add-button-name'' []]\<rparr>)"
  by (simp add: add_button_click_def ORIGIN_REGEXP_eq regexp_eval addGerritInstance_def
      addGerritInstance_for_empty js_defs new_Options_def)

lemma add_button_click_no_scheme:
  "add_button_click ''chromium-review.googlesource.com'' ''Chromium'' new_Options =
     (Normal (), new_Options\<lparr>trace := [StatusText ''Incorrect instance values.'' 750]\<rparr>)"
  by (simp add: add_button_click_def ORIGIN_REGEXP_eq regexp_eval js_defs new_Options_def)

lemma add_group_button_click_rejected:
  "add_group_button_click ''ab'' new_Options =
     (Normal (), new_Options\<lparr>trace := [StatusText ''Incorrect group name values.'' 750]\<rparr>)"
  by (simp add: add_group_button_click_def exec_short js_defs new_Options_def)


subsection \<open>loadOptions\<close>

text \<open>
  Claim C6. From the empty model, \<open>loadOptions\<close> on the persisted document with the
  instance \<^verbatim>\<open>{host: "https://a.example", name: "A", enabled: true}\<close> and the group name
  \<^verbatim>\<open>team-x\<close> gives a model with exactly that instance and exactly that group name.
\<close>

theorem loadOptions_round_trip:
  "loadOptions
     (Normal \<lparr>instances = [\<lparr>host = ''https://a.example'', name = ''A'', enabled = True\<rparr>],
              groupNames = [''team-x'']\<rparr>)
     new_Options =
   (Normal (),
    \<lparr>this_instances = [\<lparr>host = ''https://a.example'', name = ''A'', enabled = True\<rparr>],
      this_groupNames = [''team-x''],
      trace = [InstanceRow ''A'' ''https://a.example'' 0 True, GroupNameItem ''team-x'']\<rparr>)"
  by (simp add: loadOptions_def applyInstanceOptions_def applyGroupNameOptions_def
      addGerritInstance_def addGerritInstance_for_empty addGroupName_eq js_defs new_Options_def)


text \<open>
  Claim C8. When the fetch of the persisted options fails, the promise returned by
  \<open>loadOptions\<close> is rejected with the reason of the fetch, and the state is the state
  before: no status text is set and the two arrays are unchanged.
\<close>

theorem loadOptions_fetch_failure:
  "loadOptions (Throw e) s = (Throw e, s)"
  by (simp add: loadOptions_def then_js_def gerrit_fetchOptions_def)


subsection \<open>saveInstanceOptions\<close>

lemma saveInstanceOptions_unfold:
  "saveInstanceOptions allowed saved s =
     (Normal (),
      s\<lparr>trace := trace s @
          Call_setAllowedOrigins (saveInstanceOptions_forEach (this_instances s) []) #
          (case allowed of
             Throw e \<Rightarrow> [StatusText (String e) 750]
           | Normal _ \<Rightarrow>
               Call_saveOptions \<lparr>instances = this_instances s, groupNames = this_groupNames s\<rparr> #
               (case saved of
                  Throw e \<Rightarrow> [StatusText (String e) 750]
                | Normal _ \<Rightarrow> [StatusText ''Options saved.'' 750]))\<rparr>)"
  by (cases allowed; cases saved) (simp_all add: saveInstanceOptions_def Let_def js_defs)


text \<open>
  Claim C7. \<open>saveInstanceOptions\<close> first requests \<^verbatim>\<open>setAllowedOrigins\<close>. Only when that
  promise is fulfilled does it request \<^verbatim>\<open>saveOptions\<close>, with the document made of the two
  arrays. When both are fulfilled the status text is \<^verbatim>\<open>Options saved.\<close>; when either is
  rejected the status text is the string form of the reason.
\<close>

theorem saveInstanceOptions_sequence:
  "saveInstanceOptions allowed saved s =
     (Normal (),
      s\<lparr>trace := trace s @
          Call_setAllowedOrigins (saveInstanceOptions_forEach (this_instances s) []) #
          (case allowed of
             Throw e \<Rightarrow> [StatusText (String e) 750]
           | Normal _ \<Rightarrow>
               Call_saveOptions \<lparr>instances = this_instances s, groupNames = this_groupNames s\<rparr> #
               (case saved of
                  Throw e \<Rightarrow> [StatusText (String e) 750]
                | Normal _ \<Rightarrow> [StatusText ''Options saved.'' 750]))\<rparr>)"
  by (rule saveInstanceOptions_unfold)

lemma saveInstanceOptions_forEach_concat:
  "saveInstanceOptions_forEach insts origins =
     origins @ concat (map (\<lambda>i. if enabled i
                                  then (case exec ORIGIN_REGEXP (host i) of
                                          None \<Rightarrow> []
                                        | Some m \<Rightarrow> [js_add (match_at m 1) ''/*''])
                                  else []) insts)"
  by (induction insts arbitrary: origins) (simp_all split: option.splits)

lemma origin_contribution:
  "(case exec ORIGIN_REGEXP h of None \<Rightarrow> [] | Some m \<Rightarrow> [js_add (match_at m 1) ''/*'']) =
   (case spec_origin h of None \<Rightarrow> [] | Some origin \<Rightarrow> [origin @ ''/*''])"
proof (cases "spec_origin h")
  case None
  with exec_ORIGIN_REGEXP_spec_origin [of h] show ?thesis by simp
next
  case (Some origin)
  with exec_ORIGIN_REGEXP_spec_origin [of h] obtain m where
    "exec ORIGIN_REGEXP h = Some m" "match_at m 1 = Some origin" by blast
  with Some show ?thesis by simp
qed

lemma saveInstanceOptions_forEach_spec_origin:
  "saveInstanceOptions_forEach insts [] =
     List.map_filter
       (\<lambda>i. if enabled i then map_option (\<lambda>origin. origin @ ''/*'') (spec_origin (host i)) else None)
       insts"
proof -
  have "concat (map (\<lambda>i. if enabled i
                          then (case exec ORIGIN_REGEXP (host i) of
                                  None \<Rightarrow> []
                                | Some m \<Rightarrow> [js_add (match_at m 1) ''/*''])
                          else []) insts) =
        List.map_filter
          (\<lambda>i. if enabled i then map_option (\<lambda>origin. origin @ ''/*'') (spec_origin (host i)) else None)
          insts"
    by (induction insts) (simp_all add: origin_contribution map_filter_simps split: option.splits)
  then show ?thesis by (simp add: saveInstanceOptions_forEach_concat)
qed

lemma saveInstanceOptions_forEach_three:
  "saveInstanceOptions_forEach three_instances [] = [''https://a.example/*'']"
  by (simp add: three_instances_def exec_ORIGIN_a exec_ORIGIN_b match_at_def)


text \<open>
  Claim C4, as amended. The list that \<open>saveInstanceOptions\<close> passes to
  \<^verbatim>\<open>setAllowedOrigins\<close> holds, in the order of the array, one element for every enabled
  instance whose host starts with \<^verbatim>\<open>http://\<close> or \<^verbatim>\<open>https://\<close>: the scheme and host portion
  of the host followed by \<^verbatim>\<open>/*\<close>. Disabled instances, and enabled instances whose host is
  no such URL, contribute nothing.
\<close>

theorem saveInstanceOptions_allowed_origins:
  "\<exists>tr. trace (snd (saveInstanceOptions allowed saved s)) =
     trace s @
     Call_setAllowedOrigins
       (List.map_filter
          (\<lambda>i. if enabled i then map_option (\<lambda>origin. origin @ ''/*'') (spec_origin (host i))
                else None)
          (this_instances s)) # tr"
  by (simp add: saveInstanceOptions_unfold saveInstanceOptions_forEach_spec_origin)


text \<open>
  The claim as first stated asks for the origin of every enabled instance. Here the
  second instance is enabled and has no element in the list, and the element of the
  first is not its origin but the origin followed by \<^verbatim>\<open>/*\<close>.
\<close>

theorem saveInstanceOptions_origins_counterexample:
  "trace (snd (saveInstanceOptions (Normal ()) (Normal ())
      \<lparr>this_instances = three_instances, this_groupNames = [], trace = []\<rparr>)) =
     [Call_setAllowedOrigins [''https://a.example/*''],
      Call_saveOptions \<lparr>instances = three_instances, groupNames = []\<rparr>,
      StatusText ''Options saved.'' 750] \<and>
   ''https://a.example'' \<notin> set [''https://a.example/*''] \<and>
   enabled (three_instances ! 1) \<and> host (three_instances ! 1) = ''ftp://b.example''"
  by (simp add: saveInstanceOptions_unfold saveInstanceOptions_forEach_three)
     (simp add: three_instances_def)





subsection \<open>saveGroupNameOptions\<close>

lemma saveGroupNameOptions_forEach_eq:
  "saveGroupNameOptions_forEach gs (groups, invalidGroups) =
     (groups @ filter (\<lambda>g. exec GROUP_NAME_REGEXP g \<noteq> None) gs,
      invalidGroups @ filter (\<lambda>g. exec GROUP_NAME_REGEXP g = None) gs)"
  by (induction gs arbitrary: groups invalidGroups) simp_all


text \<open>
  The case analysis of \<open>saveGroupNameOptions\<close> in terms of the expression that
  \<^verbatim>\<open>config.js\<close> compiles: when some group name fails it, nothing is saved and the failing
  names are reported; when there is no group name, nothing is saved and the status is
  \<^verbatim>\<open>Nothing to save\<close>; otherwise the document made of the two arrays is saved and the
  status tells how the save went.
\<close>

lemma saveGroupNameOptions_cases:
  "((\<exists>g \<in> set (this_groupNames s). exec GROUP_NAME_REGEXP g = None) \<longrightarrow>
      saveGroupNameOptions saved s =
        (Normal (),
         s\<lparr>trace := trace s @
           [StatusText (''Invalid group names: '' @
              join (filter (\<lambda>g. exec GROUP_NAME_REGEXP g = None) (this_groupNames s)) '', '') 750]\<rparr>)) \<and>
   ((\<forall>g \<in> set (this_groupNames s). exec GROUP_NAME_REGEXP g \<noteq> None) \<and> this_groupNames s = [] \<longrightarrow>
      saveGroupNameOptions saved s =
        (Normal (), s\<lparr>trace := trace s @ [StatusText ''Nothing to save'' 750]\<rparr>)) \<and>
   ((\<forall>g \<in> set (this_groupNames s). exec GROUP_NAME_REGEXP g \<noteq> None) \<and> this_groupNames s \<noteq> [] \<longrightarrow>
      saveGroupNameOptions saved s =
        (Normal (),
         s\<lparr>trace := trace s @
           [Call_saveOptions \<lparr>instances = this_instances s, groupNames = this_groupNames s\<rparr>,
            StatusText (case saved of Normal _ \<Rightarrow> ''Options saved.'' | Throw e \<Rightarrow> String e) 750]\<rparr>))"
proof (intro conjI impI)
  assume "\<exists>g \<in> set (this_groupNames s). exec GROUP_NAME_REGEXP g = None"
  then have "filter (\<lambda>g. exec GROUP_NAME_REGEXP g = None) (this_groupNames s) \<noteq> []"
    by (simp add: filter_empty_conv)
  then show "saveGroupNameOptions saved s =
        (Normal (),
         s\<lparr>trace := trace s @
           [StatusText (''Invalid group names: '' @
              join (filter (\<lambda>g. exec GROUP_NAME_REGEXP g = None) (this_groupNames s)) '', '') 750]\<rparr>)"
    by (simp add: saveGroupNameOptions_def saveGroupNameOptions_forEach_eq setStatusText_def)
next
  assume "(\<forall>g \<in> set (this_groupNames s). exec GROUP_NAME_REGEXP g \<noteq> None) \<and> this_groupNames s = []"
  then show "saveGroupNameOptions saved s =
        (Normal (), s\<lparr>trace := trace s @ [StatusText ''Nothing to save'' 750]\<rparr>)"
    by (simp add: saveGroupNameOptions_def setStatusText_def)
next
  assume a: "(\<forall>g \<in> set (this_groupNames s). exec GROUP_NAME_REGEXP g \<noteq> None) \<and> this_groupNames s \<noteq> []"
  then have 1: "filter (\<lambda>g. exec GROUP_NAME_REGEXP g = None) (this_groupNames s) = []"
    by (simp add: filter_empty_conv)
  from a have 2: "filter (\<lambda>g. \<exists>y. exec GROUP_NAME_REGEXP g = Some y) (this_groupNames s) = this_groupNames s"
    by (simp add: filter_id_conv)
  from a 1 2 show "saveGroupNameOptions saved s =
        (Normal (),
         s\<lparr>trace := trace s @
           [Call_saveOptions \<lparr>instances = this_instances s, groupNames = this_groupNames s\<rparr>,
            StatusText (case saved of Normal _ \<Rightarrow> ''Options saved.'' | Throw e \<Rightarrow> String e) 750]\<rparr>)"
    by (cases saved) (simp_all add: saveGroupNameOptions_def saveGroupNameOptions_forEach_eq js_defs)
qed

lemma saveGroupNameOptions_cases_examples:
  "saveGroupNameOptions (Normal ())
     \<lparr>this_instances = [], this_groupNames = [''abc'', ''a'', ''b/''], trace = []\<rparr> =
     (Normal (),
      \<lparr>this_instances = [], this_groupNames = [''abc'', ''a'', ''b/''],
        trace = [StatusText ''Invalid group names: a, b/'' 750]\<rparr>) \<and>
   saveGroupNameOptions (Normal ()) new_Options =
     (Normal (),
      \<lparr>this_instances = [], this_groupNames = [], trace = [StatusText ''Nothing to save'' 750]\<rparr>) \<and>
   saveGroupNameOptions (Throw (JSError ''Error'' ''quota''))
     \<lparr>this_instances = [], this_groupNames = [''team-x''], trace = []\<rparr> =
     (Normal (),
      \<lparr>this_instances = [], this_groupNames = [''team-x''],
        trace = [Call_saveOptions \<lparr>instances = [], groupNames = [''team-x'']\<rparr>,
                 StatusText ''Error: quota'' 750]\<rparr>)"
proof -
  let ?s1 = "\<lparr>this_instances = [], this_groupNames = [''abc'', ''a'', ''b/''], trace = []\<rparr>"
  let ?s3 = "\<lparr>this_instances = [], this_groupNames = [''team-x''], trace = []\<rparr>"
  have h1: "\<exists>g \<in> set (this_groupNames ?s1). exec GROUP_NAME_REGEXP g = None"
    by (simp add: exec_a)
  have h2: "(\<forall>g \<in> set (this_groupNames new_Options). exec GROUP_NAME_REGEXP g \<noteq> None) \<and>
            this_groupNames new_Options = []"
    by simp
  have h3: "(\<forall>g \<in> set (this_groupNames ?s3). exec GROUP_NAME_REGEXP g \<noteq> None) \<and>
            this_groupNames ?s3 \<noteq> []"
    by (simp add: exec_team_x)
  from saveGroupNameOptions_cases [of ?s1 "Normal ()"] h1
       saveGroupNameOptions_cases [of new_Options "Normal ()"] h2
       saveGroupNameOptions_cases [of ?s3 "Throw (JSError ''Error'' ''quota'')"] h3
  show ?thesis
    by (simp add: exec_a exec_b_slash exec_abc new_Options_def)
qed


text \<open>
  Claim C5. The claim asks that nothing is saved when a group name fails the group-name
  pattern of the specification, the one with a literal dot. The expression of
  \<^verbatim>\<open>config.js\<close> has a bare dot instead, so the case analysis above accepts names that
  the pattern rejects: \<^verbatim>\<open>foo/bar\<close> fails the pattern, the click handler adds it all the
  same, and \<open>saveGroupNameOptions\<close> then saves the document that holds it and reports
  \<^verbatim>\<open>Options saved.\<close>
\<close>

theorem saveGroupNameOptions_saves_foo_slash_bar:
  "exec spec_GROUP_NAME_REGEXP ''foo/bar'' = None \<and>
   saveGroupNameOptions (Normal ()) (snd (add_group_button_click ''foo/bar'' new_Options)) =
     (Normal (),
      \<lparr>this_instances = [], this_groupNames = [''foo/bar''],
        trace = [GroupNameItem ''foo/bar'', InputValue ''add-group-name'' [],
                 Call_saveOptions \<lparr>instances = [], groupNames = [''foo/bar'']\<rparr>,
                 StatusText ''Options saved.'' 750]\<rparr>)"
  by (simp add: spec_exec_foo_slash_bar exec_foo_slash_bar add_group_button_click_def
      addGroupName_eq saveGroupNameOptions_def js_defs new_Options_def)

subsection \<open>The arrays are not changed by saving\<close>

text \<open>
  Claim C10. Neither \<open>saveInstanceOptions\<close> nor \<open>saveGroupNameOptions\<close> changes the two
  arrays, however the requests to the browser settle.
\<close>

theorem save_operations_frame:
  "this_instances (snd (saveInstanceOptions allowed saved s)) = this_instances s \<and>
   this_groupNames (snd (saveInstanceOptions allowed saved s)) = this_groupNames s \<and>
   this_instances (snd (saveGroupNameOptions saved s)) = this_instances s \<and>
   this_groupNames (snd (saveGroupNameOptions saved s)) = this_groupNames s"
  by (cases allowed; cases saved)
     (simp_all add: saveInstanceOptions_def saveGroupNameOptions_def Let_def js_defs
        saveGroupNameOptions_forEach_eq)

end
